theory Spec2Isabelle
  imports Main "HOL-Library.Char_ord" "HOL-Library.List_Lexorder" "HOL-Library.Word"
begin

section \<open>The SLS log client: request signing, the exchange and the payload\<close>

text \<open>
  The development follows \<^verbatim>\<open>src/request.ts\<close> and \<^verbatim>\<open>src/client.ts\<close>. The
  file \<^verbatim>\<open>request.ts\<close> is present in two revisions: an earlier one that sends with
  axios, and a later one that sends with fetch, looks headers up without regard to case
  and appends the query string to the signed resource for GET only. The specification
  describes the later revision, and the later revision is the one embedded here; the
  signing functions of the earlier one are embedded beside it, to show where the two
  agree.

  JavaScript strings are sequences of UTF-16 code units. A \<^typ>\<open>char\<close> stands for a code
  unit in the range 0 to 255; the order on strings is the lexicographic order on code
  units, which is the order \<^verbatim>\<open>Array.prototype.sort\<close> uses when it is given no
  comparator. JavaScript numbers are modelled where they are integers.
\<close>

subsection \<open>Strings\<close>

definition toLowerCase_unit :: "char \<Rightarrow> char" where
  "toLowerCase_unit c =
     (let n = (of_char c :: nat)
      in if (65 \<le> n \<and> n \<le> 90) \<or> (192 \<le> n \<and> n \<le> 222 \<and> n \<noteq> 215)
         then char_of (n + 32) else c)"

definition toLowerCase :: "string \<Rightarrow> string" where
  "toLowerCase s = map toLowerCase_unit s"

text \<open>
  \<^verbatim>\<open>toUpperCase\<close> is applied by the source to a hexadecimal digest only, so the
  letters a to z are the only ones it meets.
\<close>

definition toUpperCase_unit :: "char \<Rightarrow> char" where
  "toUpperCase_unit c =
     (let n = (of_char c :: nat)
      in if 97 \<le> n \<and> n \<le> 122 then char_of (n - 32) else c)"

definition toUpperCase :: "string \<Rightarrow> string" where
  "toUpperCase s = map toUpperCase_unit s"

text \<open>The white space that \<^verbatim>\<open>String.prototype.trim\<close> removes, below code unit 256.\<close>

definition isWhiteSpace :: "char \<Rightarrow> bool" where
  "isWhiteSpace c = ((of_char c :: nat) \<in> {9, 10, 11, 12, 13, 32, 160})"

definition trim :: "string \<Rightarrow> string" where
  "trim s = rev (dropWhile isWhiteSpace (rev (dropWhile isWhiteSpace s)))"

definition startsWith :: "string \<Rightarrow> string \<Rightarrow> bool" where
  "startsWith s p = (take (length p) s = p)"

text \<open>\<^verbatim>\<open>Array.prototype.join\<close> on an array of strings.\<close>

fun join :: "string \<Rightarrow> string list \<Rightarrow> string" where
  "join sep [] = []"
| "join sep [x] = x"
| "join sep (x # y # ys) = x @ sep @ join sep (y # ys)"

definition newline :: string where
  "newline = [CHR 0x0A]"

text \<open>The decimal form of a non-negative integer, as \<^verbatim>\<open>Number.prototype.toString\<close> gives it.\<close>

definition digit :: "nat \<Rightarrow> char" where
  "digit d = char_of (48 + d)"

function number_toString :: "nat \<Rightarrow> string" where
  "number_toString n =
     (if n < 10 then [digit n] else number_toString (n div 10) @ [digit (n mod 10)])"
  by pat_completeness auto
termination
  by (relation "measure id") auto

declare number_toString.simps [simp del]

subsection \<open>Values and objects\<close>

text \<open>
  A value of type \<^verbatim>\<open>any\<close>. \<open>Num i\<close> is the number whose value is the integer \<open>i\<close>;
  an object is the list of its own enumerable properties in the order
  \<^verbatim>\<open>Object.keys\<close> reports them (keys that look like array indices, which JavaScript
  reports first, do not occur as header or parameter names).
\<close>

datatype jsval =
    Undefined
  | Null
  | Bool bool
  | Num int
  | Str string
  | Arr "jsval list"
  | Obj "(string \<times> jsval) list"

text \<open>
  \<^verbatim>\<open>String(value)\<close>, which is also the conversion a template string and the
  constructor of \<^verbatim>\<open>Error\<close> apply. A number is printed by its decimal digits, which
  is what JavaScript prints for an integer of magnitude below \<open>2 ^ 53\<close>; \<open>plain\<close> below
  names the values on which the conversion is the one of JavaScript.
\<close>

fun String_of :: "jsval \<Rightarrow> string" where
  "String_of Undefined = ''undefined''"
| "String_of Null = ''null''"
| "String_of (Bool b) = (if b then ''true'' else ''false'')"
| "String_of (Num i) = (if i < 0 then ''-'' @ number_toString (nat (- i)) else number_toString (nat i))"
| "String_of (Str s) = s"
| "String_of (Arr vs) =
     join '','' (map (\<lambda>v. case v of Undefined \<Rightarrow> [] | Null \<Rightarrow> [] | _ \<Rightarrow> String_of v) vs)"
| "String_of (Obj kvs) = ''[object Object]''"



text \<open>
  Assignment to a property keeps the position of a key that exists and appends a new
  one. \<^verbatim>\<open>Object.assign\<close> assigns the source's properties in their order.
\<close>

fun set_prop :: "string \<Rightarrow> 'v \<Rightarrow> (string \<times> 'v) list \<Rightarrow> (string \<times> 'v) list" where
  "set_prop k v [] = [(k, v)]"
| "set_prop k v ((k', v') # kvs) =
     (if k' = k then (k, v) # kvs else (k', v') # set_prop k v kvs)"

definition Object_assign :: "(string \<times> 'v) list \<Rightarrow> (string \<times> 'v) list \<Rightarrow> (string \<times> 'v) list" where
  "Object_assign target source = fold (\<lambda>(k, v). set_prop k v) source target"

subsection \<open>Configuration, request options and the external libraries\<close>

type_synonym byte = "8 word"

type_synonym headers_t = "(string \<times> string) list"

text \<open>Of the HTTP options only the timeout is read by the source.\<close>

record SafeRequestOptions =
  timeout :: "nat option"

record RequestConfig =
  endpoint :: string
  accessKeyID :: string
  accessKeySecret :: string
  stsToken :: "string option"
  globalRequestOptions :: "SafeRequestOptions option"

datatype http_method = POST | GET | PUT | DELETE

fun method_name :: "http_method \<Rightarrow> string" where
  "method_name POST = ''POST''"
| "method_name GET = ''GET''"
| "method_name PUT = ''PUT''"
| "method_name DELETE = ''DELETE''"

text \<open>The field \<^verbatim>\<open>method\<close> of the options is \<open>req_method\<close> here.\<close>

record RequestOptions =
  req_method :: http_method
  path :: string
  queries :: "(string \<times> jsval) list option"
  body :: "byte list option"
  headers :: "headers_t option"
  projectName :: "string option"
  requestOptions :: "SafeRequestOptions option"

text \<open>
  The functions of crypto-js and qs that the source calls are not part of the
  repository; they are parameters of the model. \<open>MD5\<close> is the digest of a byte array,
  \<open>HmacSHA1_Base64 message key\<close> is \<^verbatim>\<open>CryptoJS.HmacSHA1(message, key)\<close> rendered
  with \<^verbatim>\<open>CryptoJS.enc.Base64\<close>, and \<open>qs_stringify\<close> is \<^verbatim>\<open>qs.stringify\<close>.
\<close>

record Lib =
  MD5 :: "byte list \<Rightarrow> byte list"
  HmacSHA1_Base64 :: "string \<Rightarrow> string \<Rightarrow> string"
  qs_stringify :: "(string \<times> jsval) list option \<Rightarrow> string"

text \<open>\<^verbatim>\<open>CryptoJS.enc.Hex\<close>: two lower-case hexadecimal digits for each byte.\<close>

definition hex_digit :: "nat \<Rightarrow> char" where
  "hex_digit d = (if d < 10 then char_of (48 + d) else char_of (87 + d))"

definition Hex :: "byte list \<Rightarrow> string" where
  "Hex bs = concat (map (\<lambda>b. [hex_digit (unat b div 16), hex_digit (unat b mod 16)]) bs)"

subsection \<open>Canonicalization and signing\<close>

definition buildQueries :: "Lib \<Rightarrow> (string \<times> jsval) list option \<Rightarrow> string" where
  "buildQueries L qs = (let str = qs_stringify L qs in if str \<noteq> [] then ''?'' @ str else [])"

definition buildProjectName :: "string option \<Rightarrow> string" where
  "buildProjectName p =
     (case p of None \<Rightarrow> [] | Some name \<Rightarrow> if name \<noteq> [] then name @ ''.'' else [])"

definition formatString :: "jsval \<Rightarrow> string" where
  "formatString v = (if v = Undefined then [] else String_of v)"

text \<open>Reading a property of an object: a key that is absent reads as \<^verbatim>\<open>undefined\<close>.\<close>

definition read_prop :: "(string \<times> jsval) list \<Rightarrow> string \<Rightarrow> jsval" where
  "read_prop kvs k = (case map_of kvs k of None \<Rightarrow> Undefined | Some v \<Rightarrow> v)"

definition formatResource :: "string \<Rightarrow> (string \<times> jsval) list option \<Rightarrow> string" where
  "formatResource p qs =
     (case qs of
        None \<Rightarrow> p
      | Some kvs \<Rightarrow>
          (let keys = map fst kvs
           in if length keys = 0 then p
              else (let queryStr =
                          join ''&'' (map (\<lambda>key. key @ ''='' @ formatString (read_prop kvs key))
                                        (sort keys))
                    in p @ ''?'' @ queryStr)))"

text \<open>
  \<open>header_value\<close> is \<^verbatim>\<open>headers[key]\<close> where the source goes on with a string. In
  \<^verbatim>\<open>getCanonicalizedHeaders\<close> every key comes from \<^verbatim>\<open>Object.keys(headers)\<close>, so
  the header is always there (lemma \<open>header_value_present\<close> below) and the empty string
  of the other branch is never used; in the \<^verbatim>\<open>sign\<close> of the earlier revision the
  other branch is the empty string of \<^verbatim>\<open>headers[key] || ""\<close>.
\<close>

definition header_value :: "headers_t \<Rightarrow> string \<Rightarrow> string" where
  "header_value hs k = (case map_of hs k of None \<Rightarrow> [] | Some v \<Rightarrow> v)"

definition canonical_key :: "string \<Rightarrow> bool" where
  "canonical_key key =
     (let lowerKey = toLowerCase key
      in startsWith lowerKey ''x-log-'' \<or> startsWith lowerKey ''x-acs-'')"

definition getCanonicalizedHeaders :: "headers_t \<Rightarrow> string" where
  "getCanonicalizedHeaders hs =
     (let canonicalizedKeys = sort (filter canonical_key (map fst hs))
      in if length canonicalizedKeys = 0 then []
         else join newline
                (map (\<lambda>key. toLowerCase key @ '':'' @ trim (header_value hs key))
                   canonicalizedKeys))"

text \<open>
  The local function \<^verbatim>\<open>getHeader\<close> of \<^verbatim>\<open>sign\<close>: the first entry whose
  lower-cased key is the lower-cased name, its value or the empty string.
\<close>

fun getHeader :: "headers_t \<Rightarrow> string \<Rightarrow> string" where
  "getHeader [] key = []"
| "getHeader ((k, v) # rest) key =
     (if toLowerCase k = toLowerCase key then (if v \<noteq> [] then v else [])
      else getHeader rest key)"

definition signString :: "string \<Rightarrow> string \<Rightarrow> headers_t \<Rightarrow> string" where
  "signString m resource hs =
     (let contentMD5 = getHeader hs ''content-md5'';
          contentType = getHeader hs ''content-type'';
          date = getHeader hs ''date'';
          canonicalizedHeaders = getCanonicalizedHeaders hs
      in m @ newline @ contentMD5 @ newline @ contentType @ newline @ date @ newline
           @ canonicalizedHeaders @ newline @ resource)"

definition sign :: "Lib \<Rightarrow> RequestConfig \<Rightarrow> string \<Rightarrow> string \<Rightarrow> headers_t \<Rightarrow> string" where
  "sign L config m resource hs =
     (let signature = HmacSHA1_Base64 L (signString m resource hs) (accessKeySecret config)
      in ''LOG '' @ accessKeyID config @ '':'' @ signature)"

definition updateCredential ::
  "RequestConfig \<Rightarrow> string \<Rightarrow> string \<Rightarrow> string option \<Rightarrow> RequestConfig" where
  "updateCredential config keyID keySecret token =
     config\<lparr>accessKeyID := keyID, accessKeySecret := keySecret, stsToken := token\<rparr>"

subsection \<open>Building the request\<close>

text \<open>
  The first half of \<^verbatim>\<open>do\<close>, up to the call of fetch. \<open>now\<close> is the string
  \<^verbatim>\<open>new Date().toUTCString()\<close> of the moment of the call.
\<close>

definition default_headers :: "string \<Rightarrow> headers_t" where
  "default_headers now =
     [(''content-type'', ''application/json''),
      (''date'', now),
      (''x-log-apiversion'', ''0.6.0''),
      (''x-log-signaturemethod'', ''hmac-sha1'')]"

definition merged_headers :: "string \<Rightarrow> RequestOptions \<Rightarrow> headers_t" where
  "merged_headers now options =
     Object_assign (default_headers now) (case headers options of None \<Rightarrow> [] | Some h \<Rightarrow> h)"

definition token_headers :: "RequestConfig \<Rightarrow> headers_t \<Rightarrow> headers_t" where
  "token_headers config hs =
     (case stsToken config of
        None \<Rightarrow> hs
      | Some t \<Rightarrow> if t \<noteq> [] then set_prop ''x-acs-security-token'' t hs else hs)"

definition body_headers :: "Lib \<Rightarrow> byte list option \<Rightarrow> headers_t \<Rightarrow> headers_t" where
  "body_headers L b hs =
     (case b of
        None \<Rightarrow> hs
      | Some bytes \<Rightarrow>
          set_prop ''content-md5'' (toUpperCase (Hex (MD5 L bytes)))
            (set_prop ''content-length'' (number_toString (length bytes)) hs))"

definition headers_at_sign :: "Lib \<Rightarrow> string \<Rightarrow> RequestConfig \<Rightarrow> RequestOptions \<Rightarrow> headers_t" where
  "headers_at_sign L now config options =
     body_headers L (body options) (token_headers config (merged_headers now options))"

definition signed_resource :: "RequestOptions \<Rightarrow> string" where
  "signed_resource options =
     (if req_method options = GET \<and> queries options \<noteq> None
      then formatResource (path options) (queries options)
      else path options)"

record OutgoingRequest =
  out_url :: string
  out_method :: http_method
  out_body :: "byte list option"
  out_headers :: headers_t

definition do_request :: "Lib \<Rightarrow> string \<Rightarrow> RequestConfig \<Rightarrow> RequestOptions \<Rightarrow> OutgoingRequest" where
  "do_request L now config options =
     (let hs = headers_at_sign L now config options;
          resource = signed_resource options;
          hs' = set_prop ''authorization'' (sign L config (method_name (req_method options)) resource hs) hs;
          url = ''https://'' @ buildProjectName (projectName options) @ endpoint config
                  @ path options @ buildQueries L (queries options)
      in \<lparr>out_url = url, out_method = req_method options, out_body = body options,
          out_headers = hs'\<rparr>)"

subsection \<open>The earlier revision of the signing functions\<close>

text \<open>
  The earlier revision of \<^verbatim>\<open>request.ts\<close> reads the three headers under their exact
  lower-case names, selects and prints the canonicalized headers by the keys as they are
  written, and signs the path with the query string for every method. A missing date is
  rendered by the template string as \<^verbatim>\<open>undefined\<close>.
\<close>

definition getCanonicalizedHeaders_axios :: "headers_t \<Rightarrow> string" where
  "getCanonicalizedHeaders_axios hs =
     join newline
       (map (\<lambda>key. key @ '':'' @ trim (header_value hs key))
          (sort (filter (\<lambda>key. startsWith key ''x-log-'' \<or> startsWith key ''x-acs-'')
                   (map fst hs))))"

definition sign_axios :: "Lib \<Rightarrow> RequestConfig \<Rightarrow> string \<Rightarrow> string \<Rightarrow> headers_t \<Rightarrow> string" where
  "sign_axios L config m resource hs =
     (let contentMD5 = header_value hs ''content-md5'';
          contentType = header_value hs ''content-type'';
          date = (case map_of hs ''date'' of None \<Rightarrow> ''undefined'' | Some d \<Rightarrow> d);
          canonicalizedHeaders = getCanonicalizedHeaders_axios hs;
          signString = m @ newline @ contentMD5 @ newline @ contentType @ newline
                         @ date @ newline @ canonicalizedHeaders @ newline @ resource;
          signature = HmacSHA1_Base64 L signString (accessKeySecret config)
      in ''LOG '' @ accessKeyID config @ '':'' @ signature)"

definition signed_resource_axios :: "RequestOptions \<Rightarrow> string" where
  "signed_resource_axios options = formatResource (path options) (queries options)"

subsection \<open>Reading the response\<close>

















subsection \<open>The client: timestamps and the payload of a write\<close>

text \<open>
  A timestamp is a non-negative integer below \<open>2 ^ 53\<close>; there the quotient
  \<^verbatim>\<open>Math.floor(time / 1000)\<close> is the integer quotient. A product of two numbers is the
  exact product rounded to the nearest double-precision number, ties to even:
  \<open>round_double\<close>. \<open>bit_length n\<close> is the number of binary digits of \<open>n\<close>.
\<close>

function bit_length :: "nat \<Rightarrow> nat" where
  "bit_length n = (if n = 0 then 0 else Suc (bit_length (n div 2)))"
  by pat_completeness auto
termination
  by (relation "measure id") auto

declare bit_length.simps [simp del]

definition round_double :: "nat \<Rightarrow> nat" where
  "round_double n =
     (if bit_length n \<le> 53 then n
      else (let e = bit_length n - 53; q = n div 2 ^ e; r = n mod 2 ^ e; h = 2 ^ (e - 1)
            in (if r < h then q
                else if h < r then q + 1
                else if even q then q else q + 1) * 2 ^ e))"

definition mul_double :: "nat \<Rightarrow> nat \<Rightarrow> nat" where
  "mul_double a b = round_double (a * b)"

text \<open>\<open>now\<close> is the value \<^verbatim>\<open>Date.now()\<close> returns when it is called.\<close>

definition splitTimestamp :: "nat \<Rightarrow> nat option \<Rightarrow> nat \<times> nat" where
  "splitTimestamp now ts =
     (let time = (case ts of None \<Rightarrow> now | Some t \<Rightarrow> if t \<noteq> 0 then t else now)
      in if time < 1000000000000 then (time, 0)
         else (time div 1000, mul_double (mul_double time 1000) 1000 mod 1000000000))"

record LogEntity =
  content :: "(string \<times> jsval) list"
  timestamp :: "nat option"
  timestampNsPart :: "nat option"

record LogData =
  logs :: "LogEntity list"
  tags :: "(string \<times> string) list list option"
  topic :: "string option"
  source :: "string option"

record Log =
  Time :: nat
  TimeNs :: nat
  Contents :: "(string \<times> jsval) list"

record LogGroup =
  Logs :: "Log list"
  LogTags :: "(string \<times> string) list option"
  Topic :: "string option"
  Source :: "string option"

definition log_entry :: "nat \<Rightarrow> LogEntity \<Rightarrow> Log" where
  "log_entry now l =
     (case splitTimestamp now (timestamp l) of
        (seconds, nanoseconds) \<Rightarrow>
          \<lparr>Time = seconds,
           TimeNs = (case timestampNsPart l of
                       None \<Rightarrow> nanoseconds
                     | Some ns \<Rightarrow> if ns \<noteq> 0 then ns else nanoseconds),
           Contents = content l\<rparr>)"

text \<open>
  \<open>clock i\<close> is the reading of \<^verbatim>\<open>Date.now()\<close> while the log at index \<open>i\<close> is
  converted.
\<close>

fun log_entries :: "(nat \<Rightarrow> nat) \<Rightarrow> nat \<Rightarrow> LogEntity list \<Rightarrow> Log list" where
  "log_entries clock i [] = []"
| "log_entries clock i (l # ls) = log_entry (clock i) l # log_entries clock (Suc i) ls"

definition putLogs_payload :: "(nat \<Rightarrow> nat) \<Rightarrow> LogData \<Rightarrow> LogGroup" where
  "putLogs_payload clock d =
     \<lparr>Logs = log_entries clock 0 (logs d),
      LogTags = (case tags d of
                   None \<Rightarrow> None
                 | Some ts \<Rightarrow> if length ts \<noteq> 0 then Some (concat ts) else None),
      Topic = (case topic d of None \<Rightarrow> None | Some t \<Rightarrow> if t \<noteq> [] then Some t else None),
      Source = (case source d of None \<Rightarrow> None | Some s \<Rightarrow> if s \<noteq> [] then Some s else None)\<rparr>"

text \<open>
  The options \<^verbatim>\<open>putLogs\<close> hands to \<^verbatim>\<open>do\<close>; \<open>encoded\<close> is the payload as
  protobufjs encodes it.
\<close>

definition putLogs_options ::
  "string \<Rightarrow> string \<Rightarrow> byte list \<Rightarrow> SafeRequestOptions option \<Rightarrow> RequestOptions" where
  "putLogs_options project logstoreName encoded opts =
     \<lparr>req_method = POST,
      path = ''/logstores/'' @ logstoreName @ ''/shards/lb'',
      queries = None,
      body = Some encoded,
      headers = Some [(''x-log-bodyrawsize'', number_toString (length encoded)),
                      (''content-type'', ''application/x-protobuf'')],
      projectName = Some project,
      requestOptions = opts\<rparr>"

subsection \<open>Notions used in the statements\<close>

text \<open>
  The headers the caller of \<^verbatim>\<open>do\<close> supplies, the empty object when there are none.
\<close>

definition caller_headers :: "RequestOptions \<Rightarrow> headers_t" where
  "caller_headers options = (case headers options of None \<Rightarrow> [] | Some h \<Rightarrow> h)"

text \<open>
  The lookup of a header without regard to case, in the words of the specification: the
  value of the entry whose lower-cased name is the lower-cased name asked for, the empty
  string when there is none.
\<close>

definition header_ci :: "headers_t \<Rightarrow> string \<Rightarrow> string" where
  "header_ci hs name =
     (case find (\<lambda>entry. toLowerCase (fst entry) = toLowerCase name) hs of
        None \<Rightarrow> []
      | Some entry \<Rightarrow> snd entry)"

text \<open>
  The query string in the words of the specification: the parameters sorted by key, each
  rendered as \<^verbatim>\<open>key=value\<close> with nothing for an undefined value, joined by \<^verbatim>\<open>&\<close>.
\<close>

definition render_parameter :: "string \<times> jsval \<Rightarrow> string" where
  "render_parameter p = fst p @ ''='' @ (if snd p = Undefined then [] else String_of (snd p))"

definition canonical_query :: "(string \<times> jsval) list \<Rightarrow> string" where
  "canonical_query kvs = join ''&'' (map render_parameter (sort_key fst kvs))"

text \<open>
  The canonicalized headers in the words of the specification: the entries whose
  lower-cased name has one of the two prefixes, with lower-cased names, sorted by that
  name, each rendered as \<^verbatim>\<open>name:trimmed-value\<close>, joined by a newline.
\<close>

definition canonical_headers_spec :: "headers_t \<Rightarrow> string" where
  "canonical_headers_spec hs =
     join newline
       (map (\<lambda>entry. fst entry @ '':'' @ trim (snd entry))
          (sort_key fst
             (map (\<lambda>entry. (toLowerCase (fst entry), snd entry))
                (filter (\<lambda>entry. canonical_key (fst entry)) hs))))"


subsection \<open>Concrete inputs for the examples\<close>

text \<open>
  Stand-ins for the three library functions, used only to run the model on concrete
  inputs: the digest of a byte array is the array itself and the signature of a message
  is the message, so that an example shows the string that is signed. Every theorem
  below holds for all library functions.
\<close>

definition sample_Lib :: Lib where
  "sample_Lib =
     \<lparr>MD5 = id, HmacSHA1_Base64 = (\<lambda>message key. message), qs_stringify = (\<lambda>qs. [])\<rparr>"

definition sample_config :: RequestConfig where
  "sample_config =
     \<lparr>endpoint = ''cn-hangzhou.log.aliyuncs.com'', accessKeyID = ''id'',
      accessKeySecret = ''secret'', stsToken = None, globalRequestOptions = None\<rparr>"

definition sample_date :: string where
  "sample_date = ''Tue, 03 Nov 2026 10:00:00 GMT''"

definition get_options :: "(string \<times> jsval) list option \<Rightarrow> headers_t option \<Rightarrow> RequestOptions" where
  "get_options qs hs =
     \<lparr>req_method = GET, path = ''/logstores/app'', queries = qs, body = None, headers = hs,
      projectName = Some ''proj'', requestOptions = None\<rparr>"


definition sample_clock :: "nat \<Rightarrow> nat" where
  "sample_clock i = 1700000000124 + i"

definition sample_data :: LogData where
  "sample_data =
     \<lparr>logs = [\<lparr>content = [(''k'', Str ''v'')], timestamp = Some 0, timestampNsPart = Some 0\<rparr>],
      tags = None, topic = None, source = None\<rparr>"

section \<open>Properties\<close>

subsection \<open>Objects\<close>

lemma map_of_set_prop:
  "map_of (set_prop k v kvs) k' = (if k' = k then Some v else map_of kvs k')"
  by (induction kvs) auto

lemma map_of_fold_set_prop_absent:
  "map_of src k = None \<Longrightarrow>
   map_of (fold (\<lambda>(k, v). set_prop k v) src tgt) k = map_of tgt k"
proof (induction src arbitrary: tgt)
  case Nil
  then show ?case by simp
next
  case (Cons a src)
  obtain k' v' where a: "a = (k', v')" by (cases a)
  from Cons.prems a have ne: "k \<noteq> k'" and rest: "map_of src k = None"
    by (auto split: if_splits)
  show ?case
    using Cons.IH [OF rest, of "set_prop k' v' tgt"] ne
    by (simp add: a map_of_set_prop)
qed

lemma map_of_fold_set_prop_present:
  "map_of tgt k \<noteq> None \<Longrightarrow> map_of (fold (\<lambda>(k, v). set_prop k v) src tgt) k \<noteq> None"
proof (induction src arbitrary: tgt)
  case Nil
  then show ?case by simp
next
  case (Cons a src)
  obtain k' v' where a: "a = (k', v')" by (cases a)
  have "map_of (set_prop k' v' tgt) k \<noteq> None"
    using Cons.prems by (simp add: map_of_set_prop)
  from Cons.IH [OF this] show ?case by (simp add: a)
qed

lemma map_of_Object_assign_absent:
  "map_of src k = None \<Longrightarrow> map_of (Object_assign tgt src) k = map_of tgt k"
  by (simp add: Object_assign_def map_of_fold_set_prop_absent)

lemma map_of_Object_assign_present:
  "map_of tgt k \<noteq> None \<Longrightarrow> map_of (Object_assign tgt src) k \<noteq> None"
  by (simp add: Object_assign_def map_of_fold_set_prop_present)

lemma read_prop_distinct:
  "distinct (map fst kvs) \<Longrightarrow> (k, v) \<in> set kvs \<Longrightarrow> read_prop kvs k = v"
  by (simp add: read_prop_def)

lemma insort_map_key: "insort (f x) (map f xs) = map f (insort_key f x xs)"
  by (induction xs) simp_all

lemma sort_map_key: "sort (map f xs) = map f (sort_key f xs)"
  by (induction xs) (simp_all add: insort_map_key)

subsection \<open>The sign string\<close>

lemma getHeader_header_ci: "getHeader hs name = header_ci hs name"
  by (induction hs) (auto simp: header_ci_def)

text \<open>
  C1. For every method, header mapping, resource and secret, \<^verbatim>\<open>sign\<close> signs the six
  fields method, content-md5, content-type, date, canonicalized headers and resource,
  joined by newlines; the three header values are looked up without regard to case and
  are the empty string when missing, and a field that is empty still has its newline.
  The signature is the base64 form of the HMAC-SHA1 of that string under the secret, and
  the value returned is \<^verbatim>\<open>LOG\<close>, the access key id, a colon and the signature.
\<close>

theorem sign_six_fields:
  "sign L config m resource hs =
     ''LOG '' @ accessKeyID config @ '':'' @
       HmacSHA1_Base64 L
         (join newline
            [m, header_ci hs ''content-md5'', header_ci hs ''content-type'',
             header_ci hs ''date'', getCanonicalizedHeaders hs, resource])
         (accessKeySecret config)"
  by (simp add: sign_def signString_def getHeader_header_ci)

text \<open>
  An instance: the names differ in case from the ones looked up, there is no content-md5
  and no canonicalized header, and the two empty fields leave their newlines.
\<close>

theorem sign_six_fields_witness:
  "sign sample_Lib sample_config ''GET'' ''/logstores/app''
     [(''Content-Type'', ''application/json''), (''DATE'', ''Tue, 03 Nov 2026 10:00:00 GMT'')]
   = ''LOG id:GET'' @ newline @ newline @ ''application/json'' @ newline
       @ ''Tue, 03 Nov 2026 10:00:00 GMT'' @ newline @ newline @ ''/logstores/app''"
proof -
  have "HmacSHA1_Base64 sample_Lib
         (join newline
            [''GET'',
             header_ci [(''Content-Type'', ''application/json''),
                        (''DATE'', ''Tue, 03 Nov 2026 10:00:00 GMT'')] ''content-md5'',
             header_ci [(''Content-Type'', ''application/json''),
                        (''DATE'', ''Tue, 03 Nov 2026 10:00:00 GMT'')] ''content-type'',
             header_ci [(''Content-Type'', ''application/json''),
                        (''DATE'', ''Tue, 03 Nov 2026 10:00:00 GMT'')] ''date'',
             getCanonicalizedHeaders [(''Content-Type'', ''application/json''),
                        (''DATE'', ''Tue, 03 Nov 2026 10:00:00 GMT'')],
             ''/logstores/app''])
         (accessKeySecret sample_config)
        = ''GET'' @ newline @ newline @ ''application/json'' @ newline
            @ ''Tue, 03 Nov 2026 10:00:00 GMT'' @ newline @ newline @ ''/logstores/app''"
    by code_simp
  moreover have "accessKeyID sample_config = ''id''"
    by (simp add: sample_config_def)
  ultimately show ?thesis
    by (simp add: sign_six_fields)
qed

subsection \<open>The canonicalized headers\<close>

lemma header_value_present:
  "key \<in> set (map fst hs) \<Longrightarrow> map_of hs key \<noteq> None"
  by (simp add: map_of_eq_None_iff)

text \<open>
  The order of the entries does not matter, and for names that are in lower case already
  the result is the one the specification describes.
\<close>

lemma getCanonicalizedHeaders_permutation:
  assumes "distinct (map fst hs)" and "distinct (map fst hs')" and "set hs = set hs'"
  shows "getCanonicalizedHeaders hs = getCanonicalizedHeaders hs'"
proof -
  have keys: "sort (filter canonical_key (map fst hs)) = sort (filter canonical_key (map fst hs'))"
  proof (rule sorted_distinct_set_unique)
    show "set (sort (filter canonical_key (map fst hs)))
            = set (sort (filter canonical_key (map fst hs')))"
      using assms(3) by simp
  qed (simp_all add: assms(1,2))
  have "map_of hs = map_of hs'"
    using assms by (simp add: map_of_inject_set)
  then have hv: "header_value hs = header_value hs'"
    by (simp add: header_value_def fun_eq_iff)
  show ?thesis by (simp only: getCanonicalizedHeaders_def keys hv)
qed

lemma getCanonicalizedHeaders_lower_case:
  assumes "distinct (map fst hs)" and "\<forall>k \<in> set (map fst hs). toLowerCase k = k"
  shows "getCanonicalizedHeaders hs = canonical_headers_spec hs"
proof -
  let ?sel = "filter (\<lambda>entry. canonical_key (fst entry)) hs"
  have low: "map (\<lambda>entry. (toLowerCase (fst entry), snd entry)) ?sel = ?sel"
    using assms(2) by (induction hs) auto
  have keys: "sort (filter canonical_key (map fst hs)) = map fst (sort_key fst ?sel)"
    by (simp add: filter_map comp_def sort_map_key)
  have each: "map (\<lambda>key. toLowerCase key @ '':'' @ trim (header_value hs key))
                (map fst (sort_key fst ?sel))
              = map (\<lambda>entry. fst entry @ '':'' @ trim (snd entry)) (sort_key fst ?sel)"
    unfolding map_map
  proof (rule map_cong [OF refl])
    fix x assume "x \<in> set (sort_key fst ?sel)"
    then have mem: "(fst x, snd x) \<in> set hs" by simp
    then have "fst x \<in> set (map fst hs)" by force
    with assms(2) have l: "toLowerCase (fst x) = fst x" by blast
    from mem assms(1) have "map_of hs (fst x) = Some (snd x)" by simp
    then have "header_value hs (fst x) = snd x" by (simp add: header_value_def)
    with l show "((\<lambda>key. toLowerCase key @ '':'' @ trim (header_value hs key)) \<circ> fst) x
                   = fst x @ '':'' @ trim (snd x)"
      by simp
  qed
  show ?thesis
  proof (cases "?sel = []")
    case True
    then have "filter canonical_key (map fst hs) = []"
      by (simp add: filter_map comp_def)
    with True show ?thesis
      by (simp add: getCanonicalizedHeaders_def canonical_headers_spec_def)
  next
    case False
    then have "sort_key fst ?sel \<noteq> []"
      by (metis length_0_conv length_sort)
    then have "sort (filter canonical_key (map fst hs)) \<noteq> []"
      by (simp add: keys)
    then have g: "getCanonicalizedHeaders hs =
        join newline (map (\<lambda>key. toLowerCase key @ '':'' @ trim (header_value hs key))
                        (sort (filter canonical_key (map fst hs))))"
      by (simp add: getCanonicalizedHeaders_def)
    have s: "canonical_headers_spec hs =
        join newline (map (\<lambda>entry. fst entry @ '':'' @ trim (snd entry)) (sort_key fst ?sel))"
      by (simp only: canonical_headers_spec_def low)
    show ?thesis by (simp only: g s keys each)
  qed
qed

text \<open>
  C2. The claim is that the canonicalized headers are sorted by lower-cased name and do
  not change when the case of a key changes. The source sorts the keys as they are
  written and lower-cases them afterwards. A request whose caller writes the header
  \<^verbatim>\<open>X-Log-Bodyrawsize\<close> is signed with that header before \<^verbatim>\<open>x-log-apiversion\<close>;
  with the keys \<^verbatim>\<open>X-Log-b\<close> and \<^verbatim>\<open>x-log-a\<close> the line of \<^verbatim>\<open>x-log-b\<close> comes
  first, and writing that key in lower case changes the result. The specification's own
  reading gives the sorted string for both.
\<close>

theorem getCanonicalizedHeaders_mixed_case:
  "getCanonicalizedHeaders
     (headers_at_sign sample_Lib sample_date sample_config
        (get_options None (Some [(''X-Log-Bodyrawsize'', ''2'')])))
     = ''x-log-bodyrawsize:2'' @ newline @ ''x-log-apiversion:0.6.0'' @ newline
         @ ''x-log-signaturemethod:hmac-sha1'' \<and>
   getCanonicalizedHeaders [(''X-Log-b'', ''2''), (''x-log-a'', ''1'')]
     = ''x-log-b:2'' @ newline @ ''x-log-a:1'' \<and>
   getCanonicalizedHeaders [(''x-log-b'', ''2''), (''x-log-a'', ''1'')]
     = ''x-log-a:1'' @ newline @ ''x-log-b:2'' \<and>
   canonical_headers_spec [(''X-Log-b'', ''2''), (''x-log-a'', ''1'')]
     = ''x-log-a:1'' @ newline @ ''x-log-b:2''"
  by code_simp

subsection \<open>The canonicalized resource\<close>

lemma formatResource_canonical_query:
  assumes "distinct (map fst kvs)" and "kvs \<noteq> []"
  shows "formatResource p (Some kvs) = p @ ''?'' @ canonical_query kvs"
proof -
  have "map (\<lambda>key. key @ ''='' @ formatString (read_prop kvs key)) (map fst (sort_key fst kvs))
          = map render_parameter (sort_key fst kvs)"
    unfolding map_map
  proof (rule map_cong [OF refl])
    fix x assume "x \<in> set (sort_key fst kvs)"
    then have "(fst x, snd x) \<in> set kvs" by simp
    from read_prop_distinct [OF assms(1) this]
    show "((\<lambda>key. key @ ''='' @ formatString (read_prop kvs key)) \<circ> fst) x = render_parameter x"
      by (simp add: render_parameter_def formatString_def)
  qed
  then have "join ''&'' (map (\<lambda>key. key @ ''='' @ formatString (read_prop kvs key))
                          (sort (map fst kvs))) = canonical_query kvs"
    by (simp only: sort_map_key canonical_query_def)
  moreover have "formatResource p (Some kvs) =
      p @ ''?'' @ join ''&'' (map (\<lambda>key. key @ ''='' @ formatString (read_prop kvs key))
                                (sort (map fst kvs)))"
    using assms(2) by (simp add: formatResource_def)
  ultimately show ?thesis by simp
qed

text \<open>
  C3. The resource that is signed is the path of the request; the query string is
  appended, after a question mark, only when the method is GET and there are query
  parameters, and then it is the parameters sorted by key, each rendered as
  \<^verbatim>\<open>key=value\<close> with nothing for an undefined value, joined by \<^verbatim>\<open>&\<close>. The keys
  of an object are distinct.
\<close>

theorem signed_resource_spec:
  assumes "\<And>kvs. queries options = Some kvs \<Longrightarrow> distinct (map fst kvs)"
  shows "signed_resource options =
           (case queries options of
              None \<Rightarrow> path options
            | Some kvs \<Rightarrow>
                if req_method options = GET \<and> kvs \<noteq> []
                then path options @ ''?'' @ canonical_query kvs
                else path options)"
proof (cases "queries options")
  case None
  then show ?thesis by (simp add: signed_resource_def)
next
  case (Some kvs)
  show ?thesis
  proof (cases "kvs = []")
    case True
    with Some show ?thesis by (simp add: signed_resource_def formatResource_def)
  next
    case False
    with Some assms [OF Some] show ?thesis
      by (simp add: signed_resource_def formatResource_canonical_query)
  qed
qed

text \<open>
  The two examples of the specification: \<^verbatim>\<open>{b:1, a:2}\<close> gives \<^verbatim>\<open>a=2&b=1\<close>, and a key
  whose value is undefined gives \<^verbatim>\<open>key=\<close>.
\<close>

theorem signed_resource_spec_witness:
  "signed_resource (get_options (Some [(''b'', Num 1), (''a'', Num 2)]) None)
     = ''/logstores/app?a=2&b=1'' \<and>
   signed_resource (get_options (Some [(''key'', Undefined)]) None)
     = ''/logstores/app?key=''"
proof -
  have d1: "\<And>kvs. queries (get_options (Some [(''b'', Num 1), (''a'', Num 2)]) None) = Some kvs
              \<Longrightarrow> distinct (map fst kvs)"
    by (auto simp: get_options_def)
  have d2: "\<And>kvs. queries (get_options (Some [(''key'', Undefined)]) None) = Some kvs
              \<Longrightarrow> distinct (map fst kvs)"
    by (auto simp: get_options_def)
  have e1: "(case queries (get_options (Some [(''b'', Num 1), (''a'', Num 2)]) None) of
              None \<Rightarrow> path (get_options (Some [(''b'', Num 1), (''a'', Num 2)]) None)
            | Some kvs \<Rightarrow>
                if req_method (get_options (Some [(''b'', Num 1), (''a'', Num 2)]) None) = GET \<and> kvs \<noteq> []
                then path (get_options (Some [(''b'', Num 1), (''a'', Num 2)]) None) @ ''?''
                       @ canonical_query kvs
                else path (get_options (Some [(''b'', Num 1), (''a'', Num 2)]) None))
            = ''/logstores/app?a=2&b=1''"
    by code_simp
  have e2: "(case queries (get_options (Some [(''key'', Undefined)]) None) of
              None \<Rightarrow> path (get_options (Some [(''key'', Undefined)]) None)
            | Some kvs \<Rightarrow>
                if req_method (get_options (Some [(''key'', Undefined)]) None) = GET \<and> kvs \<noteq> []
                then path (get_options (Some [(''key'', Undefined)]) None) @ ''?''
                       @ canonical_query kvs
                else path (get_options (Some [(''key'', Undefined)]) None))
            = ''/logstores/app?key=''"
    by code_simp
  from signed_resource_spec [OF d1] e1 signed_resource_spec [OF d2] e2
  show ?thesis by simp
qed

subsection \<open>Where the two revisions agree\<close>

text \<open>
  On headers whose names are written in lower case, with a date among them, the earlier
  revision signs as the later one does; the requests of \<^verbatim>\<open>putLogs\<close> and
  \<^verbatim>\<open>getLogs\<close> are of this kind. The signed resources agree for GET and for a request
  without query parameters.
\<close>

lemma getHeader_lower_case:
  assumes "\<forall>k \<in> set (map fst hs). toLowerCase k = k" and "toLowerCase name = name"
  shows "getHeader hs name = header_value hs name"
  using assms(1)
proof (induction hs)
  case Nil
  then show ?case by (simp add: header_value_def)
next
  case (Cons a hs)
  obtain k v where a: "a = (k, v)" by (cases a)
  from Cons.prems a have k: "toLowerCase k = k" by simp
  from Cons.prems have "\<forall>k \<in> set (map fst hs). toLowerCase k = k" by simp
  from Cons.IH [OF this] have ih: "getHeader hs name = header_value hs name" .
  show ?case
    using ih by (auto simp: a k assms(2) header_value_def)
qed

lemma getCanonicalizedHeaders_axios_lower_case:
  assumes "\<forall>k \<in> set (map fst hs). toLowerCase k = k"
  shows "getCanonicalizedHeaders_axios hs = getCanonicalizedHeaders hs"
proof -
  let ?old = "\<lambda>key. startsWith key ''x-log-'' \<or> startsWith key ''x-acs-''"
  have f: "filter ?old (map fst hs) = filter canonical_key (map fst hs)"
    using assms by (intro filter_cong refl) (auto simp: canonical_key_def Let_def)
  have "\<forall>k \<in> set (sort (filter canonical_key (map fst hs))). toLowerCase k = k"
    using assms by auto
  then have m: "map (\<lambda>key. key @ '':'' @ trim (header_value hs key))
                  (sort (filter canonical_key (map fst hs)))
              = map (\<lambda>key. toLowerCase key @ '':'' @ trim (header_value hs key))
                  (sort (filter canonical_key (map fst hs)))"
    by (intro map_cong refl) simp
  show ?thesis
  proof (cases "sort (filter canonical_key (map fst hs)) = []")
    case True
    then show ?thesis
      by (simp add: getCanonicalizedHeaders_axios_def getCanonicalizedHeaders_def f)
  next
    case False
    then have "getCanonicalizedHeaders hs =
        join newline (map (\<lambda>key. toLowerCase key @ '':'' @ trim (header_value hs key))
                        (sort (filter canonical_key (map fst hs))))"
      by (simp add: getCanonicalizedHeaders_def)
    moreover have "getCanonicalizedHeaders_axios hs =
        join newline (map (\<lambda>key. key @ '':'' @ trim (header_value hs key))
                        (sort (filter canonical_key (map fst hs))))"
      by (simp only: getCanonicalizedHeaders_axios_def f)
    ultimately show ?thesis by (simp only: m)
  qed
qed

lemma lower_case_names:
  "toLowerCase ''content-md5'' = ''content-md5''"
  "toLowerCase ''content-type'' = ''content-type''"
  "toLowerCase ''date'' = ''date''"
  by code_simp+

lemma sign_axios_lower_case:
  assumes "\<forall>k \<in> set (map fst hs). toLowerCase k = k" and "map_of hs ''date'' = Some d"
  shows "sign_axios L config m resource hs = sign L config m resource hs"
proof -
  have "header_value hs ''date'' = d"
    using assms(2) by (simp add: header_value_def)
  then show ?thesis
    using assms(2)
    by (simp add: sign_axios_def sign_def signString_def
          getHeader_lower_case [OF assms(1)] lower_case_names
          getCanonicalizedHeaders_axios_lower_case [OF assms(1)])
qed

lemma signed_resource_axios_agrees:
  "req_method options = GET \<or> queries options = None \<or> queries options = Some [] \<Longrightarrow>
   signed_resource_axios options = signed_resource options"
  by (auto simp: signed_resource_axios_def signed_resource_def formatResource_def)

subsection \<open>The headers of the outgoing request\<close>

lemma merged_headers_default:
  "map_of (caller_headers options) k = None \<Longrightarrow>
   map_of (merged_headers now options) k = map_of (default_headers now) k"
  by (simp add: merged_headers_def caller_headers_def map_of_Object_assign_absent)

lemma merged_headers_date: "map_of (merged_headers now options) ''date'' \<noteq> None"
  unfolding merged_headers_def
  by (rule map_of_Object_assign_present) (simp add: default_headers_def)

lemma token_headers_lookup:
  "map_of (token_headers config hs) k =
     (if k = ''x-acs-security-token'' \<and> stsToken config \<noteq> None \<and> stsToken config \<noteq> Some []
      then stsToken config else map_of hs k)"
  by (auto simp: token_headers_def map_of_set_prop split: option.splits)

lemma body_headers_lookup:
  "map_of (body_headers L b hs) k =
     (case b of
        None \<Rightarrow> map_of hs k
      | Some bytes \<Rightarrow>
          if k = ''content-md5'' then Some (toUpperCase (Hex (MD5 L bytes)))
          else if k = ''content-length'' then Some (number_toString (length bytes))
          else map_of hs k)"
  by (auto simp: body_headers_def map_of_set_prop split: option.splits)

lemma out_headers_lookup:
  "map_of (out_headers (do_request L now config options)) k =
     (if k = ''authorization''
      then Some (sign L config (method_name (req_method options)) (signed_resource options)
                   (headers_at_sign L now config options))
      else map_of (headers_at_sign L now config options) k)"
  by (simp add: do_request_def Let_def map_of_set_prop)

text \<open>
  C6, as amended. With a body, the outgoing headers hold content-md5, the upper-case
  hexadecimal digest of the body, and content-length, the number of its bytes. With no
  body the exchange adds neither header: each is among the outgoing headers only if the
  caller's own headers supply it.
\<close>

theorem body_integrity_headers:
  "(\<forall>bytes. body options = Some bytes \<longrightarrow>
        map_of (out_headers (do_request L now config options)) ''content-md5''
          = Some (toUpperCase (Hex (MD5 L bytes))) \<and>
        map_of (out_headers (do_request L now config options)) ''content-length''
          = Some (number_toString (length bytes))) \<and>
   (body options = None \<longrightarrow>
        (map_of (caller_headers options) ''content-md5'' = None \<longrightarrow>
           map_of (out_headers (do_request L now config options)) ''content-md5'' = None) \<and>
        (map_of (caller_headers options) ''content-length'' = None \<longrightarrow>
           map_of (out_headers (do_request L now config options)) ''content-length'' = None))"
  by (simp add: out_headers_lookup headers_at_sign_def body_headers_lookup token_headers_lookup
        merged_headers_default default_headers_def split: option.splits)

text \<open>
  Instances: the request \<^verbatim>\<open>putLogs\<close> builds for a body of two bytes, and a read with
  no body and no headers of the caller.
\<close>

theorem body_integrity_headers_witness:
  "map_of (out_headers (do_request sample_Lib sample_date sample_config
             (putLogs_options ''proj'' ''app'' [0x0A, 0xFF] None))) ''content-md5''
     = Some ''0AFF'' \<and>
   map_of (out_headers (do_request sample_Lib sample_date sample_config
             (putLogs_options ''proj'' ''app'' [0x0A, 0xFF] None))) ''content-length''
     = Some ''2'' \<and>
   map_of (out_headers (do_request sample_Lib sample_date sample_config
             (get_options None None))) ''content-md5'' = None \<and>
   map_of (out_headers (do_request sample_Lib sample_date sample_config
             (get_options None None))) ''content-length'' = None"
proof -
  have b: "body (putLogs_options ''proj'' ''app'' [0x0A, 0xFF] None) = Some [0x0A, 0xFF]"
    by (simp add: putLogs_options_def)
  have v: "toUpperCase (Hex (MD5 sample_Lib [0x0A, 0xFF])) = ''0AFF''"
          "number_toString (length [0x0A :: byte, 0xFF]) = ''2''"
    by code_simp+
  have n: "body (get_options None None) = None"
          "map_of (caller_headers (get_options None None)) ''content-md5'' = None"
          "map_of (caller_headers (get_options None None)) ''content-length'' = None"
    by (simp_all add: get_options_def caller_headers_def)
  note put = body_integrity_headers [of "putLogs_options ''proj'' ''app'' [0x0A, 0xFF] None"
         sample_Lib sample_date sample_config]
  note get = body_integrity_headers [of "get_options None None" sample_Lib sample_date
         sample_config]
  from put b have
    "map_of (out_headers (do_request sample_Lib sample_date sample_config
               (putLogs_options ''proj'' ''app'' [0x0A, 0xFF] None))) ''content-md5''
       = Some (toUpperCase (Hex (MD5 sample_Lib [0x0A, 0xFF])))"
    "map_of (out_headers (do_request sample_Lib sample_date sample_config
               (putLogs_options ''proj'' ''app'' [0x0A, 0xFF] None))) ''content-length''
       = Some (number_toString (length [0x0A :: byte, 0xFF]))"
    by blast+
  then have p:
    "map_of (out_headers (do_request sample_Lib sample_date sample_config
               (putLogs_options ''proj'' ''app'' [0x0A, 0xFF] None))) ''content-md5''
       = Some ''0AFF''"
    "map_of (out_headers (do_request sample_Lib sample_date sample_config
               (putLogs_options ''proj'' ''app'' [0x0A, 0xFF] None))) ''content-length''
       = Some ''2''"
    by (simp_all only: v)
  from get n have q:
    "map_of (out_headers (do_request sample_Lib sample_date sample_config
               (get_options None None))) ''content-md5'' = None"
    "map_of (out_headers (do_request sample_Lib sample_date sample_config
               (get_options None None))) ''content-length'' = None"
    by blast+
  from p q show ?thesis by blast
qed

text \<open>
  The claim as it was stated fails when the caller's headers name content-md5
  themselves: with no body the header is carried all the same.
\<close>

theorem body_integrity_headers_counterexample:
  "body (get_options None (Some [(''content-md5'', ''ABC'')])) = None \<and>
   map_of (out_headers (do_request sample_Lib sample_date sample_config
             (get_options None (Some [(''content-md5'', ''ABC'')])))) ''content-md5''
     = Some ''ABC''"
  by code_simp

text \<open>
  C7, as amended. Every outgoing request carries a date header and an authorization
  header, which is the signature over exactly the headers present when it is computed:
  the outgoing headers are those headers with the authorization added. It carries
  \<^verbatim>\<open>x-log-apiversion: 0.6.0\<close> and \<^verbatim>\<open>x-log-signaturemethod: hmac-sha1\<close> unless the
  caller's own headers name them. When the client has a session token that is not empty
  the request carries it as x-acs-security-token; when it has none, the request carries
  that header only if the caller's own headers name it.
\<close>

theorem outgoing_headers:
  fixes L now config options
  defines "hs \<equiv> out_headers (do_request L now config options)"
  shows "map_of hs ''date'' \<noteq> None \<and>
         map_of hs ''authorization''
           = Some (sign L config (method_name (req_method options)) (signed_resource options)
                     (headers_at_sign L now config options)) \<and>
         hs = set_prop ''authorization''
                (sign L config (method_name (req_method options)) (signed_resource options)
                   (headers_at_sign L now config options))
                (headers_at_sign L now config options) \<and>
         (map_of (caller_headers options) ''x-log-apiversion'' = None \<longrightarrow>
            map_of hs ''x-log-apiversion'' = Some ''0.6.0'') \<and>
         (map_of (caller_headers options) ''x-log-signaturemethod'' = None \<longrightarrow>
            map_of hs ''x-log-signaturemethod'' = Some ''hmac-sha1'') \<and>
         (\<forall>t. stsToken config = Some t \<and> t \<noteq> [] \<longrightarrow>
            map_of hs ''x-acs-security-token'' = Some t) \<and>
         ((stsToken config = None \<or> stsToken config = Some []) \<and>
          map_of (caller_headers options) ''x-acs-security-token'' = None \<longrightarrow>
            map_of hs ''x-acs-security-token'' = None)"
proof -
  have date: "map_of hs ''date'' \<noteq> None"
    using merged_headers_date [of now options]
    by (simp add: hs_def out_headers_lookup headers_at_sign_def body_headers_lookup
          token_headers_lookup split: option.splits)
  have auth: "map_of hs ''authorization''
           = Some (sign L config (method_name (req_method options)) (signed_resource options)
                     (headers_at_sign L now config options))"
    by (simp add: hs_def out_headers_lookup)
  have whole: "hs = set_prop ''authorization''
                (sign L config (method_name (req_method options)) (signed_resource options)
                   (headers_at_sign L now config options))
                (headers_at_sign L now config options)"
    by (simp add: hs_def do_request_def Let_def)
  have ver: "map_of (caller_headers options) ''x-log-apiversion'' = None \<longrightarrow>
            map_of hs ''x-log-apiversion'' = Some ''0.6.0''"
    by (simp add: hs_def out_headers_lookup headers_at_sign_def body_headers_lookup
          token_headers_lookup merged_headers_default default_headers_def split: option.splits)
  have sm: "map_of (caller_headers options) ''x-log-signaturemethod'' = None \<longrightarrow>
            map_of hs ''x-log-signaturemethod'' = Some ''hmac-sha1''"
    by (simp add: hs_def out_headers_lookup headers_at_sign_def body_headers_lookup
          token_headers_lookup merged_headers_default default_headers_def split: option.splits)
  have tok: "(\<forall>t. stsToken config = Some t \<and> t \<noteq> [] \<longrightarrow>
            map_of hs ''x-acs-security-token'' = Some t) \<and>
         ((stsToken config = None \<or> stsToken config = Some []) \<and>
          map_of (caller_headers options) ''x-acs-security-token'' = None \<longrightarrow>
            map_of hs ''x-acs-security-token'' = None)"
    by (auto simp: hs_def out_headers_lookup headers_at_sign_def body_headers_lookup
          token_headers_lookup merged_headers_default default_headers_def split: option.splits)
  from date auth whole ver sm tok show ?thesis by blast
qed

text \<open>
  Instances: the request of \<^verbatim>\<open>putLogs\<close> for a client with the session token
  \<^verbatim>\<open>tok\<close>, and the same request for a client with none.
\<close>

theorem outgoing_headers_witness:
  "map_of (out_headers (do_request sample_Lib sample_date (sample_config\<lparr>stsToken := Some ''tok''\<rparr>)
             (putLogs_options ''proj'' ''app'' [0x0A, 0xFF] None))) ''date'' \<noteq> None \<and>
   map_of (out_headers (do_request sample_Lib sample_date (sample_config\<lparr>stsToken := Some ''tok''\<rparr>)
             (putLogs_options ''proj'' ''app'' [0x0A, 0xFF] None))) ''x-log-apiversion''
     = Some ''0.6.0'' \<and>
   map_of (out_headers (do_request sample_Lib sample_date (sample_config\<lparr>stsToken := Some ''tok''\<rparr>)
             (putLogs_options ''proj'' ''app'' [0x0A, 0xFF] None))) ''x-log-signaturemethod''
     = Some ''hmac-sha1'' \<and>
   map_of (out_headers (do_request sample_Lib sample_date (sample_config\<lparr>stsToken := Some ''tok''\<rparr>)
             (putLogs_options ''proj'' ''app'' [0x0A, 0xFF] None))) ''x-acs-security-token''
     = Some ''tok'' \<and>
   map_of (out_headers (do_request sample_Lib sample_date sample_config
             (putLogs_options ''proj'' ''app'' [0x0A, 0xFF] None))) ''x-acs-security-token''
     = None"
proof -
  have c: "map_of (caller_headers (putLogs_options ''proj'' ''app'' [0x0A, 0xFF] None))
             ''x-log-apiversion'' = None"
          "map_of (caller_headers (putLogs_options ''proj'' ''app'' [0x0A, 0xFF] None))
             ''x-log-signaturemethod'' = None"
          "map_of (caller_headers (putLogs_options ''proj'' ''app'' [0x0A, 0xFF] None))
             ''x-acs-security-token'' = None"
    by (simp_all add: putLogs_options_def caller_headers_def)
  have t: "stsToken (sample_config\<lparr>stsToken := Some ''tok''\<rparr>) = Some ''tok''"
          "stsToken sample_config = None"
    by (simp_all add: sample_config_def)
  have ne: "''tok'' \<noteq> []" by simp
  note with_token = outgoing_headers [of sample_Lib sample_date
         "sample_config\<lparr>stsToken := Some ''tok''\<rparr>"
         "putLogs_options ''proj'' ''app'' [0x0A, 0xFF] None"]
  note without = outgoing_headers [of sample_Lib sample_date sample_config
         "putLogs_options ''proj'' ''app'' [0x0A, 0xFF] None"]
  from with_token have 1:
    "map_of (out_headers (do_request sample_Lib sample_date (sample_config\<lparr>stsToken := Some ''tok''\<rparr>)
               (putLogs_options ''proj'' ''app'' [0x0A, 0xFF] None))) ''date'' \<noteq> None"
    by blast
  from with_token c(1) have 2:
    "map_of (out_headers (do_request sample_Lib sample_date (sample_config\<lparr>stsToken := Some ''tok''\<rparr>)
               (putLogs_options ''proj'' ''app'' [0x0A, 0xFF] None))) ''x-log-apiversion''
       = Some ''0.6.0''"
    by blast
  from with_token c(2) have 3:
    "map_of (out_headers (do_request sample_Lib sample_date (sample_config\<lparr>stsToken := Some ''tok''\<rparr>)
               (putLogs_options ''proj'' ''app'' [0x0A, 0xFF] None))) ''x-log-signaturemethod''
       = Some ''hmac-sha1''"
    by blast
  from with_token t(1) ne have 4:
    "map_of (out_headers (do_request sample_Lib sample_date (sample_config\<lparr>stsToken := Some ''tok''\<rparr>)
               (putLogs_options ''proj'' ''app'' [0x0A, 0xFF] None))) ''x-acs-security-token''
       = Some ''tok''"
    by blast
  from without t(2) c(3) have 5:
    "map_of (out_headers (do_request sample_Lib sample_date sample_config
               (putLogs_options ''proj'' ''app'' [0x0A, 0xFF] None))) ''x-acs-security-token''
       = None"
    by blast
  from 1 2 3 4 5 show ?thesis by blast
qed

text \<open>
  The claim as it was stated fails when the caller's headers name a fixed header or the
  token header: the caller's version replaces \<^verbatim>\<open>0.6.0\<close>, and a client without a
  session token sends a token header.
\<close>

theorem outgoing_headers_counterexample:
  "map_of (out_headers (do_request sample_Lib sample_date sample_config
             (get_options None (Some [(''x-log-apiversion'', ''0.5.0'')])))) ''x-log-apiversion''
     = Some ''0.5.0'' \<and>
   stsToken sample_config = None \<and>
   map_of (out_headers (do_request sample_Lib sample_date sample_config
             (get_options None (Some [(''x-acs-security-token'', ''mine'')]))))
       ''x-acs-security-token''
     = Some ''mine''"
  by code_simp

subsection \<open>Signing is a function of its inputs\<close>

text \<open>
  C8. Signing is deterministic: the value \<^verbatim>\<open>sign\<close> returns is determined by the
  method, the resource, the headers, the access key secret and the access key id. Two
  invocations that agree on these return the same value, whatever else differs in the
  configuration of the client.
\<close>

theorem sign_deterministic:
  assumes "accessKeyID config = accessKeyID config'"
      and "accessKeySecret config = accessKeySecret config'"
  shows "sign L config m resource hs = sign L config' m resource hs"
  using assms by (simp add: sign_def)

theorem sign_deterministic_witness:
  "sign sample_Lib sample_config ''GET'' ''/logstores/app'' [(''date'', sample_date)]
     = sign sample_Lib (sample_config\<lparr>endpoint := ''other'', stsToken := Some ''tok''\<rparr>)
         ''GET'' ''/logstores/app'' [(''date'', sample_date)]"
proof -
  have "accessKeyID sample_config
          = accessKeyID (sample_config\<lparr>endpoint := ''other'', stsToken := Some ''tok''\<rparr>)"
    by simp
  moreover have "accessKeySecret sample_config
          = accessKeySecret (sample_config\<lparr>endpoint := ''other'', stsToken := Some ''tok''\<rparr>)"
    by simp
  ultimately show ?thesis by (rule sign_deterministic)
qed

subsection \<open>Rotating the credentials\<close>

text \<open>
  C10, as amended. \<^verbatim>\<open>updateCredential\<close> overwrites the access key id, the access key
  secret and the session token and leaves the endpoint and the global request options as
  they were. When the token argument is omitted the session token is cleared, and the
  exchange adds no x-acs-security-token header to later requests: a request carries one
  only if the caller's own headers name it.
\<close>

theorem updateCredential_frame:
  fixes config keyID keySecret token
  defines "config' \<equiv> updateCredential config keyID keySecret token"
  shows "accessKeyID config' = keyID \<and> accessKeySecret config' = keySecret \<and>
         stsToken config' = token \<and>
         endpoint config' = endpoint config \<and>
         globalRequestOptions config' = globalRequestOptions config \<and>
         (token = None \<longrightarrow>
            map_of (caller_headers options) ''x-acs-security-token'' = None \<longrightarrow>
            map_of (out_headers (do_request L now config' options)) ''x-acs-security-token'' = None)"
  by (simp add: config'_def updateCredential_def out_headers_lookup headers_at_sign_def
        body_headers_lookup token_headers_lookup merged_headers_default default_headers_def
        split: option.splits)

theorem updateCredential_frame_witness:
  "stsToken (updateCredential (sample_config\<lparr>stsToken := Some ''tok''\<rparr>) ''id2'' ''secret2'' None)
     = None \<and>
   endpoint (updateCredential (sample_config\<lparr>stsToken := Some ''tok''\<rparr>) ''id2'' ''secret2'' None)
     = ''cn-hangzhou.log.aliyuncs.com'' \<and>
   map_of (out_headers (do_request sample_Lib sample_date
             (updateCredential (sample_config\<lparr>stsToken := Some ''tok''\<rparr>) ''id2'' ''secret2'' None)
             (putLogs_options ''proj'' ''app'' [0x0A, 0xFF] None))) ''x-acs-security-token''
     = None"
proof -
  have c: "map_of (caller_headers (putLogs_options ''proj'' ''app'' [0x0A, 0xFF] None))
             ''x-acs-security-token'' = None"
    by (simp add: putLogs_options_def caller_headers_def)
  have e: "endpoint (sample_config\<lparr>stsToken := Some ''tok''\<rparr>) = ''cn-hangzhou.log.aliyuncs.com''"
    by (simp add: sample_config_def)
  note th = updateCredential_frame [of "sample_config\<lparr>stsToken := Some ''tok''\<rparr>" "''id2''"
         "''secret2''" None "putLogs_options ''proj'' ''app'' [0x0A, 0xFF] None" sample_Lib
         sample_date]
  from th have 1:
    "stsToken (updateCredential (sample_config\<lparr>stsToken := Some ''tok''\<rparr>) ''id2'' ''secret2'' None)
       = None"
    by blast
  from th e have 2:
    "endpoint (updateCredential (sample_config\<lparr>stsToken := Some ''tok''\<rparr>) ''id2'' ''secret2'' None)
       = ''cn-hangzhou.log.aliyuncs.com''"
    by metis
  from th c have 3:
    "map_of (out_headers (do_request sample_Lib sample_date
               (updateCredential (sample_config\<lparr>stsToken := Some ''tok''\<rparr>) ''id2'' ''secret2'' None)
               (putLogs_options ''proj'' ''app'' [0x0A, 0xFF] None))) ''x-acs-security-token''
       = None"
    by blast
  from 1 2 3 show ?thesis by blast
qed

text \<open>
  The claim as it was stated fails when the caller's headers name the token header: after
  the token has been cleared the request still carries one.
\<close>

theorem updateCredential_frame_counterexample:
  "map_of (out_headers (do_request sample_Lib sample_date
             (updateCredential (sample_config\<lparr>stsToken := Some ''tok''\<rparr>) ''id2'' ''secret2'' None)
             (get_options None (Some [(''x-acs-security-token'', ''mine'')]))))
       ''x-acs-security-token''
     = Some ''mine''"
  by code_simp

subsection \<open>Reading an error out of a JSON body\<close>












subsection \<open>Timestamps\<close>

lemma bit_length_eq:
  "2 ^ k \<le> n \<Longrightarrow> n < 2 ^ Suc k \<Longrightarrow> bit_length n = Suc k"
proof (induction k arbitrary: n)
  case 0
  then have "n = 1" by simp
  then show ?case by (simp add: bit_length.simps)
next
  case (Suc k)
  from Suc.prems have "2 ^ k \<le> n div 2" and "n div 2 < 2 ^ Suc k" by auto
  from Suc.IH [OF this] have "bit_length (n div 2) = Suc k" .
  moreover from Suc.prems have "n \<noteq> 0" by auto
  ultimately show ?case by (subst bit_length.simps) simp
qed

text \<open>The products that occur in the examples.\<close>

lemma bit_length_examples:
  "bit_length 1700000000124000 = 51"
  "bit_length 1700000000124000000 = 61"
  "bit_length 1700000000123000 = 51"
  "bit_length 1700000000123000000 = 61"
  using bit_length_eq [of 50 1700000000124000] bit_length_eq [of 60 1700000000124000000]
    bit_length_eq [of 50 1700000000123000] bit_length_eq [of 60 1700000000123000000]
  by simp_all

lemma round_double_examples:
  "round_double 1700000000124000 = 1700000000124000"
  "round_double 1700000000124000000 = 1700000000124000000"
  "round_double 1700000000123000 = 1700000000123000"
  "round_double 1700000000123000000 = 1700000000123000064"
  by (simp_all add: round_double_def bit_length_examples Let_def)

lemma splitTimestamp_time:
  "splitTimestamp now ts =
     (let time = (case ts of None \<Rightarrow> now | Some t \<Rightarrow> if t = 0 then now else t)
      in if time < 1000000000000 then (time, 0)
         else (time div 1000, round_double (round_double (time * 1000) * 1000) mod 1000000000))"
  by (simp add: splitTimestamp_def mul_double_def Let_def split: option.splits)

lemma nanoseconds_exact:
  assumes "round_double (t * 1000) = t * 1000" and "round_double (t * 1000000) = t * 1000000"
  shows "round_double (round_double (t * 1000) * 1000) mod 1000000000
           = (t * 1000000) mod 1000000000"
  using assms by (simp add: mult.assoc)

text \<open>
  C4, as amended. A timestamp of zero is replaced by the reading of the clock, as an
  absent one is: the result is the one for the current time. For every other timestamp
  \<open>t\<close>, and for the current time in place of a zero: below \<open>10^12\<close> the result is \<open>t\<close>
  seconds and no nanoseconds; from \<open>10^12\<close> on the seconds are \<open>t div 1000\<close>, and the
  nanoseconds are \<open>t * 10^6 mod 10^9\<close> whenever the products \<open>t * 1000\<close> and \<open>t * 10^6\<close> are
  double-precision numbers.
\<close>

theorem splitTimestamp_cases:
  "splitTimestamp now (Some 0) = splitTimestamp now None \<and>
   (now < 1000000000000 \<longrightarrow> splitTimestamp now (Some 0) = (now, 0)) \<and>
   (1000000000000 \<le> now \<and> now < 2 ^ 53 \<longrightarrow>
      fst (splitTimestamp now (Some 0)) = now div 1000) \<and>
   (1000000000000 \<le> now \<and> now < 2 ^ 53 \<and> round_double (now * 1000) = now * 1000 \<and>
    round_double (now * 1000000) = now * 1000000 \<longrightarrow>
      snd (splitTimestamp now (Some 0)) = (now * 1000000) mod 1000000000) \<and>
   (t \<noteq> 0 \<and> t < 1000000000000 \<longrightarrow> splitTimestamp now (Some t) = (t, 0)) \<and>
   (1000000000000 \<le> t \<and> t < 2 ^ 53 \<longrightarrow> fst (splitTimestamp now (Some t)) = t div 1000) \<and>
   (1000000000000 \<le> t \<and> t < 2 ^ 53 \<and> round_double (t * 1000) = t * 1000 \<and>
    round_double (t * 1000000) = t * 1000000 \<longrightarrow>
      snd (splitTimestamp now (Some t)) = (t * 1000000) mod 1000000000)"
proof (intro conjI impI)
  show "splitTimestamp now (Some 0) = splitTimestamp now None"
    by (simp add: splitTimestamp_time Let_def)
next
  assume "now < 1000000000000"
  then show "splitTimestamp now (Some 0) = (now, 0)"
    by (simp add: splitTimestamp_time Let_def)
next
  assume "1000000000000 \<le> now \<and> now < 2 ^ 53"
  then have "\<not> now < 1000000000000" by auto
  then show "fst (splitTimestamp now (Some 0)) = now div 1000"
    by (simp add: splitTimestamp_time Let_def)
next
  assume a: "1000000000000 \<le> now \<and> now < 2 ^ 53 \<and> round_double (now * 1000) = now * 1000 \<and>
    round_double (now * 1000000) = now * 1000000"
  then have big: "\<not> now < 1000000000000" by auto
  from a have "round_double (round_double (now * 1000) * 1000) mod 1000000000
                 = (now * 1000000) mod 1000000000"
    by (intro nanoseconds_exact) simp_all
  with big show "snd (splitTimestamp now (Some 0)) = (now * 1000000) mod 1000000000"
    by (simp add: splitTimestamp_time Let_def)
next
  assume "t \<noteq> 0 \<and> t < 1000000000000"
  then show "splitTimestamp now (Some t) = (t, 0)"
    by (simp add: splitTimestamp_time Let_def)
next
  assume "1000000000000 \<le> t \<and> t < 2 ^ 53"
  then have "t \<noteq> 0" and "\<not> t < 1000000000000" by auto
  then show "fst (splitTimestamp now (Some t)) = t div 1000"
    by (simp add: splitTimestamp_time Let_def)
next
  assume a: "1000000000000 \<le> t \<and> t < 2 ^ 53 \<and> round_double (t * 1000) = t * 1000 \<and>
    round_double (t * 1000000) = t * 1000000"
  then have nz: "t \<noteq> 0" and big: "\<not> t < 1000000000000" by auto
  from a have "round_double (round_double (t * 1000) * 1000) mod 1000000000
                 = (t * 1000000) mod 1000000000"
    by (intro nanoseconds_exact) simp_all
  with nz big show "snd (splitTimestamp now (Some t)) = (t * 1000000) mod 1000000000"
    by (simp add: splitTimestamp_time Let_def)
qed

text \<open>
  Instances: a timestamp in seconds, a timestamp in milliseconds, and the timestamp 0
  with the clock at 1699999999 and at 1700000000124.
\<close>

theorem splitTimestamp_cases_witness:
  "splitTimestamp 1700000000123 (Some 1699999999) = (1699999999, 0) \<and>
   fst (splitTimestamp 1700000000123 (Some 1700000000124)) = 1700000000 \<and>
   snd (splitTimestamp 1700000000123 (Some 1700000000124)) = 124000000 \<and>
   splitTimestamp 1699999999 (Some 0) = (1699999999, 0) \<and>
   fst (splitTimestamp 1700000000124 (Some 0)) = 1700000000 \<and>
   snd (splitTimestamp 1700000000124 (Some 0)) = 124000000"
proof -
  have a: "(1699999999::nat) \<noteq> 0 \<and> (1699999999::nat) < 1000000000000"
    by simp
  have a': "(1699999999::nat) < 1000000000000"
    by simp
  have b: "(1000000000000::nat) \<le> 1700000000124 \<and> (1700000000124::nat) < 2 ^ 53"
    by simp
  have c: "(1000000000000::nat) \<le> 1700000000124 \<and> (1700000000124::nat) < 2 ^ 53 \<and>
     round_double (1700000000124 * 1000) = 1700000000124 * 1000 \<and>
     round_double (1700000000124 * 1000000) = 1700000000124 * 1000000"
    by (simp add: round_double_examples)
  note th = splitTimestamp_cases [of 1700000000123 1699999999]
  note th' = splitTimestamp_cases [of 1700000000123 1700000000124]
  note z = splitTimestamp_cases [of 1699999999 1]
  note z' = splitTimestamp_cases [of 1700000000124 1]
  note 1 = th [THEN conjunct2, THEN conjunct2, THEN conjunct2, THEN conjunct2,
               THEN conjunct1, THEN mp, OF a]
  note 2 = th' [THEN conjunct2, THEN conjunct2, THEN conjunct2, THEN conjunct2,
                THEN conjunct2, THEN conjunct1, THEN mp, OF b]
  note 3 = th' [THEN conjunct2, THEN conjunct2, THEN conjunct2, THEN conjunct2,
                THEN conjunct2, THEN conjunct2, THEN mp, OF c]
  note 4 = z [THEN conjunct2, THEN conjunct1, THEN mp, OF a']
  note 5 = z' [THEN conjunct2, THEN conjunct2, THEN conjunct1, THEN mp, OF b]
  note 6 = z' [THEN conjunct2, THEN conjunct2, THEN conjunct2, THEN conjunct1, THEN mp, OF c]
  have v: "(1700000000124::nat) div 1000 = 1700000000"
          "(1700000000124::nat) * 1000000 mod 1000000000 = 124000000"
    by simp_all
  from 1 2 3 4 5 6 show ?thesis by (simp only: v)
qed

text \<open>
  The claim as it was stated fails at the timestamp 0, where the clock is read, and at
  1700000000123, where the product \<open>t * 10^6\<close> is rounded to a multiple of 256 before the
  remainder is taken.
\<close>

theorem splitTimestamp_counterexample:
  "splitTimestamp 1700000000124 (Some 0) = (1700000000, 124000000) \<and>
   splitTimestamp 1700000000124 (Some 0) \<noteq> (0, 0) \<and>
   splitTimestamp 0 (Some 1700000000123) = (1700000000, 123000064) \<and>
   snd (splitTimestamp 0 (Some 1700000000123)) \<noteq> (1700000000123 * 1000000) mod 1000000000"
  by (simp add: splitTimestamp_def mul_double_def round_double_examples)

subsection \<open>The payload of a write\<close>

lemma log_entries_nth:
  "i < length ls \<Longrightarrow> log_entries clock k ls ! i = log_entry (clock (k + i)) (ls ! i)"
proof (induction ls arbitrary: i k)
  case Nil
  then show ?case by simp
next
  case (Cons l ls)
  then show ?case by (cases i) simp_all
qed

lemma log_entry_zero_timestamp:
  "timestamp l = Some 0 \<Longrightarrow> log_entry now l = log_entry now (l\<lparr>timestamp := None\<rparr>)"
  by (simp add: log_entry_def splitTimestamp_def)

lemma log_entry_zero_nspart:
  "timestampNsPart l = Some 0 \<Longrightarrow> log_entry now l = log_entry now (l\<lparr>timestampNsPart := None\<rparr>)"
  by (simp add: log_entry_def)

lemma log_entry_fields:
  "Time (log_entry now l) = fst (splitTimestamp now (timestamp l))"
  "TimeNs (log_entry now l) =
     (case timestampNsPart l of
        None \<Rightarrow> snd (splitTimestamp now (timestamp l))
      | Some ns \<Rightarrow> if ns \<noteq> 0 then ns else snd (splitTimestamp now (timestamp l)))"
  by (auto simp: log_entry_def split: prod.splits option.splits)

text \<open>
  C9. In the payload \<^verbatim>\<open>putLogs\<close> builds, a log whose timestamp is 0 is encoded as the
  same log with no timestamp is, and its time is the current time and not 0: the reading
  of the clock when that is below \<open>10^12\<close>, and the reading divided by 1000 otherwise. A
  log whose timestampNsPart is 0 is encoded as the same log with no timestampNsPart is,
  and its nanosecond part is the one derived from the timestamp: 0 for a timestamp below
  \<open>10^12\<close>, and \<open>t * 10^6 mod 10^9\<close> for a timestamp \<open>t\<close> from \<open>10^12\<close> on whose products
  \<open>t * 1000\<close> and \<open>t * 10^6\<close> are double-precision numbers; when the timestamp is 0 as
  well, the reading of the clock takes its place.
\<close>

theorem putLogs_zero_is_absent:
  assumes "i < length (logs d)"
  shows "(timestamp (logs d ! i) = Some 0 \<longrightarrow>
            Logs (putLogs_payload clock d) ! i
              = log_entry (clock i) ((logs d ! i)\<lparr>timestamp := None\<rparr>) \<and>
            (clock i < 1000000000000 \<longrightarrow>
               Time (Logs (putLogs_payload clock d) ! i) = clock i) \<and>
            (1000000000000 \<le> clock i \<and> clock i < 2 ^ 53 \<longrightarrow>
               Time (Logs (putLogs_payload clock d) ! i) = clock i div 1000)) \<and>
         (timestampNsPart (logs d ! i) = Some 0 \<longrightarrow>
            Logs (putLogs_payload clock d) ! i
              = log_entry (clock i) ((logs d ! i)\<lparr>timestampNsPart := None\<rparr>) \<and>
            (\<forall>t. timestamp (logs d ! i) = Some t \<and> t \<noteq> 0 \<and> t < 1000000000000 \<longrightarrow>
               TimeNs (Logs (putLogs_payload clock d) ! i) = 0) \<and>
            (\<forall>t. timestamp (logs d ! i) = Some t \<and> 1000000000000 \<le> t \<and> t < 2 ^ 53 \<and>
                 round_double (t * 1000) = t * 1000 \<and>
                 round_double (t * 1000000) = t * 1000000 \<longrightarrow>
               TimeNs (Logs (putLogs_payload clock d) ! i) = (t * 1000000) mod 1000000000) \<and>
            (timestamp (logs d ! i) = Some 0 \<and> clock i < 1000000000000 \<longrightarrow>
               TimeNs (Logs (putLogs_payload clock d) ! i) = 0) \<and>
            (timestamp (logs d ! i) = Some 0 \<and> 1000000000000 \<le> clock i \<and> clock i < 2 ^ 53 \<and>
             round_double (clock i * 1000) = clock i * 1000 \<and>
             round_double (clock i * 1000000) = clock i * 1000000 \<longrightarrow>
               TimeNs (Logs (putLogs_payload clock d) ! i)
                 = (clock i * 1000000) mod 1000000000))"
proof -
  let ?l = "logs d ! i"
  have e: "Logs (putLogs_payload clock d) ! i = log_entry (clock i) ?l"
    using assms by (simp add: putLogs_payload_def log_entries_nth)
  have ts: "timestamp ?l = Some 0 \<longrightarrow>
            log_entry (clock i) ?l = log_entry (clock i) (?l\<lparr>timestamp := None\<rparr>) \<and>
            (clock i < 1000000000000 \<longrightarrow> Time (log_entry (clock i) ?l) = clock i) \<and>
            (1000000000000 \<le> clock i \<and> clock i < 2 ^ 53 \<longrightarrow>
               Time (log_entry (clock i) ?l) = clock i div 1000)"
  proof (intro impI conjI)
    assume z: "timestamp ?l = Some 0"
    then show "log_entry (clock i) ?l = log_entry (clock i) (?l\<lparr>timestamp := None\<rparr>)"
      by (rule log_entry_zero_timestamp)
    {
      assume "clock i < 1000000000000"
      then show "Time (log_entry (clock i) ?l) = clock i"
        by (simp add: log_entry_fields z splitTimestamp_time Let_def)
    }
    {
      assume "1000000000000 \<le> clock i \<and> clock i < 2 ^ 53"
      then have "\<not> clock i < 1000000000000" by auto
      then show "Time (log_entry (clock i) ?l) = clock i div 1000"
        by (simp add: log_entry_fields z splitTimestamp_time Let_def)
    }
  qed
  have ns: "timestampNsPart ?l = Some 0 \<longrightarrow>
            log_entry (clock i) ?l = log_entry (clock i) (?l\<lparr>timestampNsPart := None\<rparr>) \<and>
            (\<forall>t. timestamp ?l = Some t \<and> t \<noteq> 0 \<and> t < 1000000000000 \<longrightarrow>
               TimeNs (log_entry (clock i) ?l) = 0) \<and>
            (\<forall>t. timestamp ?l = Some t \<and> 1000000000000 \<le> t \<and> t < 2 ^ 53 \<and>
                 round_double (t * 1000) = t * 1000 \<and>
                 round_double (t * 1000000) = t * 1000000 \<longrightarrow>
               TimeNs (log_entry (clock i) ?l) = (t * 1000000) mod 1000000000) \<and>
            (timestamp ?l = Some 0 \<and> clock i < 1000000000000 \<longrightarrow>
               TimeNs (log_entry (clock i) ?l) = 0) \<and>
            (timestamp ?l = Some 0 \<and> 1000000000000 \<le> clock i \<and> clock i < 2 ^ 53 \<and>
             round_double (clock i * 1000) = clock i * 1000 \<and>
             round_double (clock i * 1000000) = clock i * 1000000 \<longrightarrow>
               TimeNs (log_entry (clock i) ?l) = (clock i * 1000000) mod 1000000000)"
  proof (intro impI conjI allI)
    assume z: "timestampNsPart ?l = Some 0"
    then show "log_entry (clock i) ?l = log_entry (clock i) (?l\<lparr>timestampNsPart := None\<rparr>)"
      by (rule log_entry_zero_nspart)
    from z have n: "TimeNs (log_entry (clock i) ?l) = snd (splitTimestamp (clock i) (timestamp ?l))"
      by (simp add: log_entry_fields)
    {
      fix t assume "timestamp ?l = Some t \<and> t \<noteq> 0 \<and> t < 1000000000000"
      then show "TimeNs (log_entry (clock i) ?l) = 0"
        by (simp add: n splitTimestamp_time Let_def)
    }
    {
      fix t
      assume a: "timestamp ?l = Some t \<and> 1000000000000 \<le> t \<and> t < 2 ^ 53 \<and>
                 round_double (t * 1000) = t * 1000 \<and>
                 round_double (t * 1000000) = t * 1000000"
      then have nz: "t \<noteq> 0" and big: "\<not> t < 1000000000000" by auto
      from a have "round_double (round_double (t * 1000) * 1000) mod 1000000000
                     = (t * 1000000) mod 1000000000"
        by (intro nanoseconds_exact) simp_all
      with a nz big show "TimeNs (log_entry (clock i) ?l) = (t * 1000000) mod 1000000000"
        by (simp add: n splitTimestamp_time Let_def)
    }
    {
      assume "timestamp ?l = Some 0 \<and> clock i < 1000000000000"
      then show "TimeNs (log_entry (clock i) ?l) = 0"
        by (simp add: n splitTimestamp_time Let_def)
    }
    {
      assume a: "timestamp ?l = Some 0 \<and> 1000000000000 \<le> clock i \<and> clock i < 2 ^ 53 \<and>
             round_double (clock i * 1000) = clock i * 1000 \<and>
             round_double (clock i * 1000000) = clock i * 1000000"
      then have big: "\<not> clock i < 1000000000000" by auto
      from a have "round_double (round_double (clock i * 1000) * 1000) mod 1000000000
                     = (clock i * 1000000) mod 1000000000"
        by (intro nanoseconds_exact) simp_all
      with a big show "TimeNs (log_entry (clock i) ?l) = (clock i * 1000000) mod 1000000000"
        by (simp add: n splitTimestamp_time Let_def)
    }
  qed
  from ts ns show ?thesis
    unfolding e by (rule conjI)
qed

text \<open>
  An instance: one log with timestamp 0 and timestampNsPart 0, converted when the clock
  reads 1700000000124 milliseconds.
\<close>

theorem putLogs_zero_is_absent_witness:
  "Time (Logs (putLogs_payload sample_clock sample_data) ! 0) = 1700000000 \<and>
   TimeNs (Logs (putLogs_payload sample_clock sample_data) ! 0) = 124000000 \<and>
   Logs (putLogs_payload sample_clock sample_data) ! 0
     = log_entry (sample_clock 0) ((logs sample_data ! 0)\<lparr>timestamp := None\<rparr>)"
proof -
  have i: "0 < length (logs sample_data)"
    by (simp add: sample_data_def)
  have z: "timestamp (logs sample_data ! 0) = Some 0"
          "timestampNsPart (logs sample_data ! 0) = Some 0"
    by (simp_all add: sample_data_def)
  have c: "sample_clock 0 = 1700000000124"
    by (simp add: sample_clock_def)
  have b: "1000000000000 \<le> sample_clock 0 \<and> sample_clock 0 < 2 ^ 53"
    by (simp add: c)
  have r: "timestamp (logs sample_data ! 0) = Some 0 \<and>
           1000000000000 \<le> sample_clock 0 \<and> sample_clock 0 < 2 ^ 53 \<and>
           round_double (sample_clock 0 * 1000) = sample_clock 0 * 1000 \<and>
           round_double (sample_clock 0 * 1000000) = sample_clock 0 * 1000000"
    by (simp add: c z round_double_examples)
  note th = putLogs_zero_is_absent [OF i, of sample_clock]
  note first = th [THEN conjunct1, THEN mp, OF z(1)]
  note second = th [THEN conjunct2, THEN mp, OF z(2)]
  note 1 = first [THEN conjunct2, THEN conjunct2, THEN mp, OF b]
  note 2 = second [THEN conjunct2, THEN conjunct2, THEN conjunct2, THEN conjunct2,
                   THEN mp, OF r]
  note 3 = first [THEN conjunct1]
  have v: "sample_clock 0 div 1000 = 1700000000"
          "sample_clock 0 * 1000000 mod 1000000000 = 124000000"
    by (simp_all add: c)
  from 1 2 have "Time (Logs (putLogs_payload sample_clock sample_data) ! 0) = 1700000000"
    "TimeNs (Logs (putLogs_payload sample_clock sample_data) ! 0) = 124000000"
    by (simp_all only: v)
  with 3 show ?thesis by (intro conjI)
qed

end
